theory Spec2Isabelle
  imports Complex_Main "HOL-Library.Log_Nat"
begin

text \<open>
  A model of the router of \<open>routes/books.js\<close>: the five handlers on the in-memory array
  \<open>books\<close>, with the library functions they call (\<open>parseInt\<close>, \<open>Array.prototype.find\<close>,
  \<open>indexOf\<close>, \<open>splice\<close> and \<open>push\<close>, and the \<open>status\<close>, \<open>json\<close> and \<open>sendStatus\<close> of the
  Express response) modelled after their documented behaviour.
\<close>

section \<open>JavaScript values\<close>

text \<open>
  A JavaScript Number is NaN, an infinity or a finite double. Every finite double is a
  rational, so \<open>Finite\<close> carries a rational; the two zeros are one value, which is all
  that \<open>===\<close> can see.
\<close>

datatype number = NaN | PosInfinity | NegInfinity | Finite rat

datatype jsval =
    Undefined
  | Null
  | Boolean bool
  | Number number
  | Str string
  | DateObj int
  | Arr "jsval list"
  | Obj "(string \<times> jsval) list"

text \<open>\<open>a === b\<close> on two Numbers: NaN is equal to nothing, itself included.\<close>

definition strict_eq :: "number \<Rightarrow> number \<Rightarrow> bool" where
  "strict_eq a b = (a \<noteq> NaN \<and> a = b)"

text \<open>
  The conversion of a mathematical integer to the nearest double, ties to the even
  significand, overflowing to an infinity from \<open>2^1024 - 2^970\<close> on.
\<close>

definition toNumber :: "int \<Rightarrow> number" where
  "toNumber n =
     (let a = \<bar>n\<bar> in
      if a < 2 ^ 53 then Finite (of_int n)
      else
        let e = nat (bitlen a) - 53;
            q = a div 2 ^ e;
            r = a mod 2 ^ e;
            q' = (if 2 * r > 2 ^ e \<or> (2 * r = 2 ^ e \<and> odd q) then q + 1 else q);
            m = q' * 2 ^ e
        in if m \<ge> 2 ^ 1024 then (if n < 0 then NegInfinity else PosInfinity)
           else Finite (of_int (sgn n * m)))"

section \<open>parseInt\<close>

text \<open>
  A path parameter is a string of code units; a \<open>char\<close> stands for the code unit of
  the same number, so the strings of the model are those over U+0000 to U+00FF. The white
  space that \<open>parseInt\<close> skips is, in that range: TAB, LF, VT, FF, CR, SP and NBSP.
\<close>

definition isWhiteSpace :: "char \<Rightarrow> bool" where
  "isWhiteSpace c = ((of_char c :: nat) \<in> {9, 10, 11, 12, 13, 32, 160})"

definition digitValue :: "char \<Rightarrow> nat option" where
  "digitValue c =
     (let n = (of_char c :: nat) in
      if 48 \<le> n \<and> n \<le> 57 then Some (n - 48)
      else if 97 \<le> n \<and> n \<le> 122 then Some (n - 87)
      else if 65 \<le> n \<and> n \<le> 90 then Some (n - 55)
      else None)"

definition isRadixDigit :: "nat \<Rightarrow> char \<Rightarrow> bool" where
  "isRadixDigit R c = (case digitValue c of Some d \<Rightarrow> d < R | None \<Rightarrow> False)"

definition mathInt :: "nat \<Rightarrow> string \<Rightarrow> nat" where
  "mathInt R Z =
     foldl (\<lambda>acc c. case digitValue c of Some d \<Rightarrow> acc * R + d | None \<Rightarrow> acc) 0 Z"

text \<open>
  \<open>parseInt(string)\<close> with no radix argument: skip leading white space, take a sign,
  switch to radix 16 after a \<open>0x\<close> or \<open>0X\<close> prefix, read the longest run of digits of
  the radix, and give NaN when that run is empty.
\<close>

definition parseInt :: "string \<Rightarrow> number" where
  "parseInt inputString =
     (let S = dropWhile isWhiteSpace inputString;
          sign = (if S \<noteq> [] \<and> hd S = CHR ''-'' then - 1 else (1 :: int));
          S1 = (if S \<noteq> [] \<and> (hd S = CHR ''+'' \<or> hd S = CHR ''-'') then tl S else S);
          stripPrefix = (take 2 S1 = ''0x'' \<or> take 2 S1 = ''0X'');
          R = (if stripPrefix then 16 else 10);
          S2 = (if stripPrefix then drop 2 S1 else S1);
          Z = takeWhile (isRadixDigit R) S2
      in if Z = [] then NaN else toNumber (sign * int (mathInt R Z)))"

section \<open>The store and the request\<close>

text \<open>
  A book is an object of five properties. Its \<open>id\<close> is a Number: \<open>books.length + 1\<close> for
  a book that \<open>POST\<close> created, and a number for a seed book. The other properties hold
  whatever the request supplied, \<open>undefined\<close> included. The seed of the array
  (\<open>utils/data\<close>) is not fixed here: the handlers take any list of books.
\<close>

record book =
  book_id :: number
  title :: jsval
  author :: jsval
  finished :: jsval
  createdAt :: jsval

text \<open>
  \<open>req.body\<close> is the object the body parser built: a map from property names to values
  (an empty object when the request had no body). Reading a property that the object does
  not have gives \<open>undefined\<close>.
\<close>

type_synonym reqbody = "string \<rightharpoonup> jsval"

definition property :: "reqbody \<Rightarrow> string \<Rightarrow> jsval" where
  "property obj k = (case obj k of None \<Rightarrow> Undefined | Some v \<Rightarrow> v)"

subsection \<open>Array methods\<close>

text \<open>
  \<open>books.find(p)\<close> is \<^const>\<open>List.find\<close>, with \<open>None\<close> for \<open>undefined\<close>.
  \<open>books.indexOf(x)\<close> is the first index holding \<open>x\<close>, or \<open>-1\<close>.
\<close>

fun indexOf :: "'a list \<Rightarrow> 'a \<Rightarrow> int" where
  "indexOf [] x = - 1"
| "indexOf (y # ys) x =
     (if y = x then 0
      else (let i = indexOf ys x in if i < 0 then - 1 else i + 1))"

text \<open>
  \<open>xs.splice(start, deleteCount, ...items)\<close>, as the contents of the array afterwards:
  a negative start counts from the end, and both arguments are clamped to the array.
\<close>

definition splice :: "'a list \<Rightarrow> int \<Rightarrow> int \<Rightarrow> 'a list \<Rightarrow> 'a list" where
  "splice xs start deleteCount items =
     (let len = int (length xs);
          actualStart = (if start < 0 then max (len + start) 0 else min start len);
          actualDeleteCount = min (max deleteCount 0) (len - actualStart)
      in take (nat actualStart) xs @ items @ drop (nat (actualStart + actualDeleteCount)) xs)"

section \<open>The response\<close>

datatype payload = NoBody | Text string | JsonBook book | JsonBooks "book list"

record response =
  status :: nat
  body :: payload

text \<open>
  A response is a status code and a body. A JSON body is kept as the value that is
  serialised, so two responses with the same book have the same JSON text.

  \<open>res.send\<close> drops the body of a 204 and of a 304. \<open>res.status(c).json(v)\<close> sends the
  serialised value. \<open>res.sendStatus(c)\<close> is \<open>res.status(c).send(message)\<close>, where the
  message is the status message of \<open>c\<close>, or the code in decimal when it has none;
  \<open>statuses\<close> holds the messages of the two codes that the router passes to \<open>sendStatus\<close>.
  Conditional requests (a 304 for a fresh cache entry) are not modelled: a request is its
  path parameter and its body.
\<close>

definition send :: "nat \<Rightarrow> payload \<Rightarrow> response" where
  "send code chunk =
     \<lparr>status = code, body = (if code = 204 \<or> code = 304 then NoBody else chunk)\<rparr>"

definition json :: "nat \<Rightarrow> payload \<Rightarrow> response" where
  "json code v = send code v"

definition statuses :: "(nat \<times> string) list" where
  "statuses = [(204, ''No Content''), (404, ''Not Found'')]"

fun decimal :: "nat \<Rightarrow> string" where
  "decimal n =
     (if n < 10 then [char_of (48 + n)]
      else decimal (n div 10) @ [char_of (48 + n mod 10)])"

definition sendStatus :: "nat \<Rightarrow> response" where
  "sendStatus statusCode =
     send statusCode
       (Text (case map_of statuses statusCode of Some m \<Rightarrow> m | None \<Rightarrow> decimal statusCode))"

section \<open>The handlers of routes/books.js\<close>

text \<open>
  Each handler takes the \<open>books\<close> array and gives the response and the array afterwards.
  \<open>matches idParam\<close> is the callback of the three \<open>books.find\<close> calls.
\<close>

definition matches :: "string \<Rightarrow> book \<Rightarrow> bool" where
  "matches idParam b = strict_eq (book_id b) (parseInt idParam)"

definition router_get :: "book list \<Rightarrow> response \<times> book list" where
  "router_get books = (json 200 (JsonBooks books), books)"

definition router_get_id :: "book list \<Rightarrow> string \<Rightarrow> response \<times> book list" where
  "router_get_id books idParam =
     (case find (matches idParam) books of
        Some b \<Rightarrow> (json 200 (JsonBook b), books)
      | None \<Rightarrow> (sendStatus 404, books))"

text \<open>\<open>now\<close> is the time value that \<open>new Date()\<close> reads from the clock.\<close>

definition new_book :: "book list \<Rightarrow> reqbody \<Rightarrow> int \<Rightarrow> book" where
  "new_book books b now =
     \<lparr>book_id = Finite (of_nat (length books) + 1),
      title = property b ''title'',
      author = property b ''author'',
      finished = (if property b ''finished'' \<noteq> Undefined then property b ''finished'' else Boolean False),
      createdAt = DateObj now\<rparr>"

definition router_post :: "book list \<Rightarrow> reqbody \<Rightarrow> int \<Rightarrow> response \<times> book list" where
  "router_post books b now =
     (let bk = new_book books b now
      in (json 201 (JsonBook bk), books @ [bk]))"

definition updated_book :: "book \<Rightarrow> reqbody \<Rightarrow> book" where
  "updated_book bk b =
     \<lparr>book_id = book_id bk,
      title = (if property b ''title'' \<noteq> Undefined then property b ''title'' else title bk),
      author = (if property b ''author'' \<noteq> Undefined then property b ''author'' else author bk),
      finished = (if property b ''finished'' \<noteq> Undefined then property b ''finished'' else finished bk),
      createdAt = createdAt bk\<rparr>"

definition router_put_id :: "book list \<Rightarrow> string \<Rightarrow> reqbody \<Rightarrow> response \<times> book list" where
  "router_put_id books idParam b =
     (case find (matches idParam) books of
        Some bk \<Rightarrow> (sendStatus 204, splice books (indexOf books bk) 1 [updated_book bk b])
      | None \<Rightarrow> (sendStatus 404, books))"

definition router_delete_id :: "book list \<Rightarrow> string \<Rightarrow> response \<times> book list" where
  "router_delete_id books idParam =
     (case find (matches idParam) books of
        Some bk \<Rightarrow> (sendStatus 204, splice books (indexOf books bk) 1 [])
      | None \<Rightarrow> (sendStatus 404, books))"

subsection \<open>Sequences of requests\<close>

datatype request =
    GET_books
  | GET_book string
  | POST_books reqbody int
  | PUT_book string reqbody
  | DELETE_book string

fun handle :: "book list \<Rightarrow> request \<Rightarrow> response \<times> book list" where
  "handle books GET_books = router_get books"
| "handle books (GET_book idParam) = router_get_id books idParam"
| "handle books (POST_books b now) = router_post books b now"
| "handle books (PUT_book idParam b) = router_put_id books idParam b"
| "handle books (DELETE_book idParam) = router_delete_id books idParam"

fun run :: "book list \<Rightarrow> request list \<Rightarrow> book list" where
  "run books [] = books"
| "run books (r # rs) = run (snd (handle books r)) rs"

section \<open>Example stores\<close>

text \<open>
  The scenario of the specification: the store starts with one seed book of id 1; a
  \<open>POST\<close> of X by Y is given id 2; \<open>DELETE /books/1\<close> removes the seed book; a \<open>POST\<close> of
  Z by W is then given id 2 again.
\<close>

definition book1 :: book where
  "book1 = \<lparr>book_id = Finite 1, title = Str ''Seed'', author = Str ''Anon'',
            finished = Boolean False, createdAt = DateObj 0\<rparr>"

definition body_XY :: reqbody where
  "body_XY = [''title'' \<mapsto> Str ''X'', ''author'' \<mapsto> Str ''Y'']"

definition body_ZW :: reqbody where
  "body_ZW = [''title'' \<mapsto> Str ''Z'', ''author'' \<mapsto> Str ''W'']"

definition bookX :: book where
  "bookX = \<lparr>book_id = Finite 2, title = Str ''X'', author = Str ''Y'',
            finished = Boolean False, createdAt = DateObj 10\<rparr>"

definition bookZ :: book where
  "bookZ = \<lparr>book_id = Finite 2, title = Str ''Z'', author = Str ''W'',
            finished = Boolean False, createdAt = DateObj 20\<rparr>"

definition store_after_delete :: "book list" where
  "store_after_delete = run [book1] [POST_books body_XY 10, DELETE_book ''1'']"

definition store_dup :: "book list" where
  "store_dup = run store_after_delete [POST_books body_ZW 20]"

text \<open>The store after nine \<open>POST\<close>s on the seed book: ten books, of ids 1 to 10.\<close>

definition store10 :: "book list" where
  "store10 = run [book1] (replicate 9 (POST_books body_XY 10))"

text \<open>\<open>posted n\<close> is the book that such a \<open>POST\<close> creates under id \<open>n\<close>.\<close>

definition posted :: "nat \<Rightarrow> book" where
  "posted n = \<lparr>book_id = Finite (of_nat n), title = Str ''X'', author = Str ''Y'',
               finished = Boolean False, createdAt = DateObj 10\<rparr>"

section \<open>Facts about the array methods\<close>

text \<open>
  \<open>indexOf\<close> compares objects by identity and the model compares books by value. The
  handlers only ever look for the book that \<open>find\<close> has just returned, and for it the two
  agree: the first position holding an equal book is the first position where the callback
  holds, which is where the object that \<open>find\<close> returned sits.
\<close>

lemma indexOf_first:
  "i < length xs \<Longrightarrow> xs ! i = x \<Longrightarrow> (\<forall>j<i. xs ! j \<noteq> x) \<Longrightarrow> indexOf xs x = int i"
proof (induction xs arbitrary: i)
  case Nil
  then show ?case by simp
next
  case (Cons y ys)
  show ?case
  proof (cases i)
    case 0
    with Cons.prems show ?thesis by simp
  next
    case (Suc k)
    with Cons.prems have neq: "y \<noteq> x" by auto
    from Suc Cons.prems have "k < length ys" "ys ! k = x" by auto
    moreover from Suc Cons.prems have "\<forall>j<k. ys ! j \<noteq> x" by auto
    ultimately have "indexOf ys x = int k" by (rule Cons.IH)
    with neq Suc show ?thesis by simp
  qed
qed

lemma find_first:
  assumes "x \<in> set xs" "P x"
  shows "\<exists>i<length xs. find P xs = Some (xs ! i) \<and> P (xs ! i) \<and> (\<forall>j<i. \<not> P (xs ! j))"
proof -
  from assms obtain y where "find P xs = Some y"
    by (cases "find P xs") (auto simp: find_None_iff)
  then show ?thesis by (auto simp: find_Some_iff)
qed

lemma find_indexOf:
  assumes "x \<in> set xs" "P x"
  shows "\<exists>i<length xs. find P xs = Some (xs ! i) \<and> indexOf xs (xs ! i) = int i
           \<and> P (xs ! i) \<and> (\<forall>j<i. \<not> P (xs ! j))"
proof -
  from find_first [of x xs P] assms obtain i where i: "i < length xs" "find P xs = Some (xs ! i)"
    "P (xs ! i)" "\<forall>j<i. \<not> P (xs ! j)" by blast
  then have "\<forall>j<i. xs ! j \<noteq> xs ! i" by metis
  with i have "indexOf xs (xs ! i) = int i" by (intro indexOf_first) auto
  with i show ?thesis by blast
qed

lemma find_snoc:
  "(\<forall>x\<in>set xs. \<not> P x) \<Longrightarrow> P y \<Longrightarrow> find P (xs @ [y]) = Some y"
  by (induction xs) auto

lemma splice_delete: "i < length xs \<Longrightarrow> splice xs (int i) 1 [] = take i xs @ drop (Suc i) xs"
  by (simp add: splice_def Let_def min_def max_def nat_add_distrib)

lemma splice_replace: "i < length xs \<Longrightarrow> splice xs (int i) 1 [u] = xs[i := u]"
  by (simp add: splice_def Let_def min_def max_def nat_add_distrib upd_conv_take_nth_drop)

section \<open>Facts about parseInt\<close>

lemma parseInt_1: "parseInt ''1'' = Finite 1"
  by (simp add: parseInt_def isWhiteSpace_def isRadixDigit_def digitValue_def mathInt_def
      toNumber_def)

lemma parseInt_2: "parseInt ''2'' = Finite 2"
  by (simp add: parseInt_def isWhiteSpace_def isRadixDigit_def digitValue_def mathInt_def
      toNumber_def)

lemma parseInt_0: "parseInt ''0'' = Finite 0"
  by (simp add: parseInt_def isWhiteSpace_def isRadixDigit_def digitValue_def mathInt_def
      toNumber_def)

lemma parseInt_0xA: "parseInt ''0xA'' = Finite 10"
  by (simp add: parseInt_def isWhiteSpace_def isRadixDigit_def digitValue_def mathInt_def
      toNumber_def)

lemma parseInt_plus1: "parseInt ''+1'' = Finite 1"
  by (simp add: parseInt_def isWhiteSpace_def isRadixDigit_def digitValue_def mathInt_def
      toNumber_def)

lemma decimal_digit_iff:
  "isRadixDigit 10 c \<longleftrightarrow> 48 \<le> (of_char c :: nat) \<and> (of_char c :: nat) \<le> 57"
  by (auto simp: isRadixDigit_def digitValue_def Let_def)

lemma decimal_digit_plain:
  assumes "isRadixDigit 10 c"
  shows "\<not> isWhiteSpace c" "c \<noteq> CHR ''+''" "c \<noteq> CHR ''-''" "c \<noteq> CHR ''x''" "c \<noteq> CHR ''X''"
  using assms by (auto simp: decimal_digit_iff isWhiteSpace_def)

lemma takeWhile_digits:
  "\<forall>d\<in>set ds. P d \<Longrightarrow> \<not> P c \<Longrightarrow> takeWhile P (ds @ c # rest) = ds"
  by (induction ds) auto

lemma parseInt_plain:
  assumes "dropWhile isWhiteSpace s = s"
    and "hd s \<noteq> CHR ''+''" and "hd s \<noteq> CHR ''-''"
    and "take 2 s \<noteq> ''0x''" and "take 2 s \<noteq> ''0X''"
    and "takeWhile (isRadixDigit 10) s = Z"
  shows "parseInt s = (if Z = [] then NaN else toNumber (int (mathInt 10 Z)))"
  unfolding parseInt_def Let_def using assms by simp

lemma parseInt_digits:
  assumes "ds \<noteq> []" and "\<forall>d\<in>set ds. isRadixDigit 10 d"
  shows "parseInt ds = toNumber (int (mathInt 10 ds))"
proof -
  from assms obtain d ds' where ds: "ds = d # ds'" by (cases ds) auto
  with assms(2) have d: "isRadixDigit 10 d" by simp
  have np: "take 2 ds \<noteq> ''0x'' \<and> take 2 ds \<noteq> ''0X''"
  proof (cases ds')
    case Nil
    with ds show ?thesis by simp
  next
    case (Cons d2 ds'')
    with ds assms(2) have "isRadixDigit 10 d2" by simp
    then have "d2 \<noteq> CHR ''x''" "d2 \<noteq> CHR ''X''" by (rule decimal_digit_plain)+
    with ds Cons show ?thesis by simp
  qed
  have dw: "dropWhile isWhiteSpace ds = ds"
    using ds decimal_digit_plain(1) [OF d] by simp
  have hd: "hd ds \<noteq> CHR ''+''" "hd ds \<noteq> CHR ''-''"
    using ds decimal_digit_plain(2,3) [OF d] by simp_all
  have tw: "takeWhile (isRadixDigit 10) ds = ds"
    using assms(2) by (simp add: takeWhile_eq_all_conv)
  from parseInt_plain [OF dw hd conjunct1 [OF np] conjunct2 [OF np] tw] assms(1)
  show ?thesis by simp
qed

lemma parseInt_digits_prefix:
  assumes "ds \<noteq> []" and "\<forall>d\<in>set ds. isRadixDigit 10 d" and "\<not> isRadixDigit 10 c"
    and "\<not> (ds = ''0'' \<and> (c = CHR ''x'' \<or> c = CHR ''X''))"
  shows "parseInt (ds @ c # rest) = toNumber (int (mathInt 10 ds))"
proof -
  define s where "s = ds @ c # rest"
  from assms obtain d ds' where ds: "ds = d # ds'" by (cases ds) auto
  with assms(2) have d: "isRadixDigit 10 d" by simp
  have np: "take 2 s \<noteq> ''0x'' \<and> take 2 s \<noteq> ''0X''"
  proof (cases ds')
    case Nil
    with ds assms(4) show ?thesis by (auto simp: s_def)
  next
    case (Cons d2 ds'')
    with ds assms(2) have "isRadixDigit 10 d2" by simp
    then have "d2 \<noteq> CHR ''x''" "d2 \<noteq> CHR ''X''" by (rule decimal_digit_plain)+
    with ds Cons show ?thesis by (simp add: s_def)
  qed
  have dw: "dropWhile isWhiteSpace s = s"
    using ds decimal_digit_plain(1) [OF d] by (simp add: s_def)
  have hd: "hd s \<noteq> CHR ''+''" "hd s \<noteq> CHR ''-''"
    using ds decimal_digit_plain(2,3) [OF d] by (simp_all add: s_def)
  have tw: "takeWhile (isRadixDigit 10) s = ds"
    unfolding s_def using assms(2,3) by (rule takeWhile_digits)
  from parseInt_plain [OF dw hd conjunct1 [OF np] conjunct2 [OF np] tw] assms(1)
  show ?thesis by (simp add: s_def)
qed

lemma parseInt_NaN:
  assumes "\<not> isWhiteSpace c" and "c \<noteq> CHR ''+''" and "c \<noteq> CHR ''-''"
    and "\<not> isRadixDigit 10 c"
  shows "parseInt (c # rest) = NaN"
proof -
  define s where "s = c # rest"
  have c0: "c \<noteq> CHR ''0''"
    using assms(4) by (auto simp: decimal_digit_iff)
  then have np: "take 2 s \<noteq> ''0x''" "take 2 s \<noteq> ''0X''"
    by (cases rest; simp add: s_def)+
  have dw: "dropWhile isWhiteSpace s = s" using assms(1) by (simp add: s_def)
  have hd: "hd s \<noteq> CHR ''+''" "hd s \<noteq> CHR ''-''"
    using assms(2,3) by (simp_all add: s_def)
  have tw: "takeWhile (isRadixDigit 10) s = []" using assms(4) by (simp add: s_def)
  from parseInt_plain [OF dw hd np tw] show ?thesis by (simp add: s_def)
qed

section \<open>Facts about the handlers\<close>

lemma sendStatus_404: "sendStatus 404 = \<lparr>status = 404, body = Text ''Not Found''\<rparr>"
  by (simp add: sendStatus_def send_def statuses_def)

lemma sendStatus_204: "sendStatus 204 = \<lparr>status = 204, body = NoBody\<rparr>"
  by (simp add: sendStatus_def send_def statuses_def)

lemma not_found:
  assumes "\<forall>bk\<in>set books. \<not> matches s bk"
  shows "find (matches s) books = None"
  using assms by (simp add: find_None_iff)

lemma put_found:
  assumes "bk \<in> set books" "matches s bk"
  shows "\<exists>i<length books. matches s (books ! i) \<and> (\<forall>j<i. \<not> matches s (books ! j))
           \<and> router_put_id books s b =
               (\<lparr>status = 204, body = NoBody\<rparr>, books[i := updated_book (books ! i) b])"
proof -
  from find_indexOf [of bk books "matches s"] assms obtain i where i: "i < length books"
    "find (matches s) books = Some (books ! i)" "indexOf books (books ! i) = int i"
    "matches s (books ! i)" "\<forall>j<i. \<not> matches s (books ! j)" by blast
  then have "router_put_id books s b =
      (\<lparr>status = 204, body = NoBody\<rparr>, books[i := updated_book (books ! i) b])"
    by (simp add: router_put_id_def sendStatus_204 splice_replace)
  with i show ?thesis by blast
qed

lemma delete_found:
  assumes "bk \<in> set books" "matches s bk"
  shows "\<exists>i<length books. matches s (books ! i) \<and> (\<forall>j<i. \<not> matches s (books ! j))
           \<and> router_delete_id books s =
               (\<lparr>status = 204, body = NoBody\<rparr>, take i books @ drop (Suc i) books)"
proof -
  from find_indexOf [of bk books "matches s"] assms obtain i where i: "i < length books"
    "find (matches s) books = Some (books ! i)" "indexOf books (books ! i) = int i"
    "matches s (books ! i)" "\<forall>j<i. \<not> matches s (books ! j)" by blast
  then have "router_delete_id books s =
      (\<lparr>status = 204, body = NoBody\<rparr>, take i books @ drop (Suc i) books)"
    by (simp add: router_delete_id_def sendStatus_204 splice_delete)
  with i show ?thesis by blast
qed

lemma matches_new_book:
  "parseInt s = Finite (of_nat (length books) + 1) \<Longrightarrow> matches s (new_book books b now)"
  by (simp add: matches_def strict_eq_def new_book_def)

lemma matches_NaN: "parseInt s = NaN \<Longrightarrow> \<not> matches s bk"
  by (simp add: matches_def strict_eq_def)

lemma matches_cong: "parseInt s = parseInt s' \<Longrightarrow> matches s = matches s'"
  by (rule ext) (simp add: matches_def)

lemma handlers_cong:
  assumes "parseInt s = parseInt s'"
  shows "router_get_id books s = router_get_id books s'"
    and "router_put_id books s b = router_put_id books s' b"
    and "router_delete_id books s = router_delete_id books s'"
  using matches_cong [OF assms]
  by (simp_all add: router_get_id_def router_put_id_def router_delete_id_def)

section \<open>Facts about the example stores\<close>

lemma matches_book1: "matches ''1'' book1"
  by (simp add: matches_def strict_eq_def book1_def parseInt_1)

lemma matches_bookX: "matches ''2'' bookX"
  by (simp add: matches_def strict_eq_def bookX_def parseInt_2)

lemma matches_bookZ: "matches ''2'' bookZ"
  by (simp add: matches_def strict_eq_def bookZ_def parseInt_2)

lemma store_after_delete_eq: "store_after_delete = [bookX]"
  by (simp add: store_after_delete_def router_post_def router_delete_id_def new_book_def
      Let_def body_XY_def property_def matches_def strict_eq_def parseInt_1 book1_def
      splice_def bookX_def)

lemma store_dup_eq: "store_dup = [bookX, bookZ]"
  by (simp add: store_dup_def store_after_delete_eq router_post_def new_book_def Let_def
      body_ZW_def property_def bookZ_def)

lemma store10_eq: "store10 = book1 # map posted [2..<11]"
  by (simp add: store10_def eval_nat_numeral router_post_def new_book_def Let_def
      body_XY_def property_def posted_def upt_rec)

lemma get_store10_0xA:
  "router_get_id store10 ''0xA'' = (\<lparr>status = 200, body = JsonBook (posted 10)\<rparr>, store10)"
  unfolding store10_eq
  by (simp add: router_get_id_def matches_def strict_eq_def parseInt_0xA posted_def book1_def
      upt_rec json_def send_def)

lemma get_store10_0:
  "router_get_id store10 ''0'' = (\<lparr>status = 404, body = Text ''Not Found''\<rparr>, store10)"
  unfolding store10_eq
  by (simp add: router_get_id_def matches_def strict_eq_def parseInt_0 posted_def book1_def
      upt_rec sendStatus_404)

section \<open>The claims\<close>

subsection \<open>POST /books\<close>

text \<open>
  C1. For every store, \<open>POST /books\<close> answers 201 with the created book, whose \<open>id\<close> is the
  length of the collection before the insertion plus 1, and the collection afterwards is
  the old one with that book appended at the end.
\<close>

theorem post_created:
  "fst (router_post books b now) = \<lparr>status = 201, body = JsonBook (new_book books b now)\<rparr>
   \<and> book_id (new_book books b now) = Finite (of_nat (length books) + 1)
   \<and> snd (router_post books b now) = books @ [new_book books b now]"
  by (simp add: router_post_def json_def send_def new_book_def Let_def)

subsection \<open>An id that no book has\<close>

text \<open>
  C2, as the code has it. When no book of the store has an \<open>id\<close> strictly equal to the
  parsed path parameter, \<open>GET\<close>, \<open>PUT\<close> and \<open>DELETE /books/:id\<close> answer 404 and leave the
  store as it was. The body of the 404 is not empty: \<open>sendStatus\<close> sends the status
  message \<open>Not Found\<close> as text.
\<close>

theorem absent_id_404:
  assumes "\<forall>bk\<in>set books. \<not> matches s bk"
  shows "router_get_id books s = (\<lparr>status = 404, body = Text ''Not Found''\<rparr>, books)
         \<and> router_put_id books s b = (\<lparr>status = 404, body = Text ''Not Found''\<rparr>, books)
         \<and> router_delete_id books s = (\<lparr>status = 404, body = Text ''Not Found''\<rparr>, books)"
  using not_found [OF assms]
  by (simp add: router_get_id_def router_put_id_def router_delete_id_def sendStatus_404)

theorem absent_id_404_witness:
  "\<not> matches ''2'' book1
   \<and> router_get_id [book1] ''2'' = (\<lparr>status = 404, body = Text ''Not Found''\<rparr>, [book1])
   \<and> router_put_id [book1] ''2'' Map.empty
       = (\<lparr>status = 404, body = Text ''Not Found''\<rparr>, [book1])
   \<and> router_delete_id [book1] ''2'' = (\<lparr>status = 404, body = Text ''Not Found''\<rparr>, [book1])"
proof -
  have n: "\<not> matches ''2'' book1"
    by (simp add: matches_def strict_eq_def book1_def parseInt_2)
  then have h: "\<forall>bk\<in>set [book1]. \<not> matches ''2'' bk" by simp
  show ?thesis using n absent_id_404 [OF h, of Map.empty] by simp
qed

text \<open>
  C2 as stated fails on the body: with the seed book alone in the store, no book has
  id 2, and \<open>GET /books/2\<close> answers 404 with the body \<open>Not Found\<close>.
\<close>

theorem absent_id_body_counterexample:
  "\<not> matches ''2'' book1
   \<and> status (fst (router_get_id [book1] ''2'')) = 404
   \<and> body (fst (router_get_id [book1] ''2'')) = Text ''Not Found''
   \<and> body (fst (router_get_id [book1] ''2'')) \<noteq> NoBody"
  by (simp add: router_get_id_def matches_def strict_eq_def book1_def parseInt_2 sendStatus_404)

subsection \<open>PUT with a title only\<close>

text \<open>
  C3. When the store holds a book with the given id and the body supplies \<open>title\<close> only,
  \<open>PUT /books/:id\<close> answers 204; the first matching book, at its old position, then has
  the new title and its old \<open>author\<close>, \<open>finished\<close>, \<open>createdAt\<close> and \<open>id\<close>, and every
  other position of the collection holds the book it held before.
\<close>

theorem put_title_only:
  assumes "bk \<in> set books" and "matches s bk"
    and "b ''title'' = Some t" and "t \<noteq> Undefined"
    and "b ''author'' = None" and "b ''finished'' = None"
  shows "\<exists>i<length books. matches s (books ! i) \<and> (\<forall>j<i. \<not> matches s (books ! j))
           \<and> fst (router_put_id books s b) = \<lparr>status = 204, body = NoBody\<rparr>
           \<and> length (snd (router_put_id books s b)) = length books
           \<and> title (snd (router_put_id books s b) ! i) = t
           \<and> author (snd (router_put_id books s b) ! i) = author (books ! i)
           \<and> finished (snd (router_put_id books s b) ! i) = finished (books ! i)
           \<and> createdAt (snd (router_put_id books s b) ! i) = createdAt (books ! i)
           \<and> book_id (snd (router_put_id books s b) ! i) = book_id (books ! i)
           \<and> (\<forall>j<length books. j \<noteq> i \<longrightarrow> snd (router_put_id books s b) ! j = books ! j)"
proof -
  from put_found [of bk books s b] assms(1,2) obtain i where i: "i < length books"
    "matches s (books ! i)" "\<forall>j<i. \<not> matches s (books ! j)"
    and put: "router_put_id books s b =
      (\<lparr>status = 204, body = NoBody\<rparr>, books[i := updated_book (books ! i) b])"
    by blast
  have upd: "updated_book (books ! i) b = (books ! i)\<lparr>title := t\<rparr>"
    using assms(3-6) by (simp add: updated_book_def property_def)
  show ?thesis
    using i by (intro exI [of _ i]) (simp add: put upd)
qed

theorem put_title_only_witness:
  "book1 \<in> set [book1, book1\<lparr>title := Str ''Z''\<rparr>] \<and> matches ''1'' book1
   \<and> [''title'' \<mapsto> Str ''T''] ''title'' = Some (Str ''T'') \<and> Str ''T'' \<noteq> Undefined
   \<and> [''title'' \<mapsto> Str ''T''] ''author'' = None
   \<and> [''title'' \<mapsto> Str ''T''] ''finished'' = None
   \<and> fst (router_put_id [book1, book1\<lparr>title := Str ''Z''\<rparr>] ''1'' [''title'' \<mapsto> Str ''T''])
       = \<lparr>status = 204, body = NoBody\<rparr>
   \<and> length (snd (router_put_id [book1, book1\<lparr>title := Str ''Z''\<rparr>] ''1''
         [''title'' \<mapsto> Str ''T''])) = 2"
proof -
  let ?books = "[book1, book1\<lparr>title := Str ''Z''\<rparr>]"
  let ?b = "[''title'' \<mapsto> Str ''T'']"
  have m: "matches ''1'' book1"
    by (simp add: matches_def strict_eq_def book1_def parseInt_1)
  have h: "book1 \<in> set ?books" "?b ''title'' = Some (Str ''T'')" "Str ''T'' \<noteq> Undefined"
    "?b ''author'' = None" "?b ''finished'' = None"
    by simp_all
  from put_title_only [OF h(1) m h(2-5)]
  have "fst (router_put_id ?books ''1'' ?b) = \<lparr>status = 204, body = NoBody\<rparr>
      \<and> length (snd (router_put_id ?books ''1'' ?b)) = length ?books"
    by blast
  with m h show ?thesis by simp
qed

subsection \<open>Id reuse after a deletion\<close>

text \<open>
  C4. Ids are not unique. From any store, two \<open>POST\<close>s followed by the \<open>DELETE\<close> of the
  id that the first of them was given reach, by a deletion, a store on which the next
  \<open>POST\<close> gives the new book the \<open>id\<close> of a book already in the collection.
\<close>

theorem id_reuse_after_delete:
  assumes "parseInt s = Finite (of_nat (length seed) + 1)"
  shows "let s2 = run seed [POST_books b1 t1, POST_books b2 t2];
             (r3, s3) = handle s2 (DELETE_book s);
             (r4, s4) = handle s3 (POST_books b3 t3)
         in status r3 = 204 \<and> length s3 = length s2 - 1 \<and> status r4 = 201
            \<and> body r4 = JsonBook (last s4)
            \<and> (\<exists>old\<in>set s3. book_id old = book_id (last s4))"
proof -
  define n1 where "n1 = new_book seed b1 t1"
  define n2 where "n2 = new_book (seed @ [n1]) b2 t2"
  define s2 where "s2 = seed @ [n1, n2]"
  have run: "run seed [POST_books b1 t1, POST_books b2 t2] = s2"
    by (simp add: router_post_def Let_def n1_def n2_def s2_def)
  have "n1 \<in> set s2" by (simp add: s2_def)
  moreover have "matches s n1" unfolding n1_def using assms by (rule matches_new_book)
  ultimately obtain i where i: "i < length s2" "\<forall>j<i. \<not> matches s (s2 ! j)"
    and del: "router_delete_id s2 s = (\<lparr>status = 204, body = NoBody\<rparr>, take i s2 @ drop (Suc i) s2)"
    using delete_found [of n1 s2 s] by blast
  define s3 where "s3 = take i s2 @ drop (Suc i) s2"
  have "s2 ! length seed = n1" by (simp add: s2_def nth_append)
  with \<open>matches s n1\<close> i(2) have ile: "i \<le> length seed" by (metis not_le_imp_less)
  have len2: "length s2 = length seed + 2" by (simp add: s2_def)
  with i(1) have len3: "length s3 = length seed + 1" by (simp add: s3_def)
  have "drop (Suc i) s2 \<noteq> []" using ile len2 by simp
  moreover have "last s2 = n2" by (simp add: s2_def)
  ultimately have "last (drop (Suc i) s2) = n2" using ile len2 by (simp add: last_drop)
  with \<open>drop (Suc i) s2 \<noteq> []\<close> have n2in: "n2 \<in> set s3"
    unfolding s3_def by (metis Un_iff last_in_set set_append)
  have id2: "book_id n2 = Finite (of_nat (length seed) + 1 + 1)"
    by (simp add: n2_def new_book_def)
  have post: "router_post s3 b3 t3 = (\<lparr>status = 201, body = JsonBook (new_book s3 b3 t3)\<rparr>,
      s3 @ [new_book s3 b3 t3])"
    by (simp add: router_post_def json_def send_def Let_def)
  have id3: "book_id (new_book s3 b3 t3) = Finite (of_nat (length seed) + 1 + 1)"
    by (simp add: new_book_def len3)
  from n2in id2 id3 have "\<exists>old\<in>set s3. book_id old = book_id (new_book s3 b3 t3)" by auto
  then show ?thesis
    unfolding run Let_def handle.simps del post s3_def [symmetric]
    using len2 len3 by (simp add: post)
qed

theorem id_reuse_after_delete_witness:
  "parseInt ''1'' = Finite (of_nat (length ([] :: book list)) + 1)
   \<and> (let s2 = run [] [POST_books Map.empty 10, POST_books Map.empty 20];
          (r3, s3) = handle s2 (DELETE_book ''1'');
          (r4, s4) = handle s3 (POST_books Map.empty 30)
      in status r3 = 204 \<and> length s3 = length s2 - 1 \<and> status r4 = 201
         \<and> body r4 = JsonBook (last s4)
         \<and> (\<exists>old\<in>set s3. book_id old = book_id (last s4)))"
proof -
  have h: "parseInt ''1'' = Finite (of_nat (length ([] :: book list)) + 1)"
    by (simp add: parseInt_1)
  show ?thesis
    using h id_reuse_after_delete [OF h, of Map.empty 10 Map.empty 20 Map.empty 30] by simp
qed

subsection \<open>DELETE, then GET\<close>

text \<open>
  C5, as the code has it. When exactly one book of the store has the given id,
  \<open>DELETE /books/:id\<close> answers 204 and a \<open>GET /books/:id\<close> on the same id right after it
  answers 404.
\<close>

theorem delete_then_get_404:
  assumes "bk \<in> set books" and "matches s bk"
    and "\<forall>i<length books. \<forall>j<length books.
           matches s (books ! i) \<and> matches s (books ! j) \<longrightarrow> i = j"
  shows "fst (router_delete_id books s) = \<lparr>status = 204, body = NoBody\<rparr>
         \<and> status (fst (router_get_id (snd (router_delete_id books s)) s)) = 404"
proof -
  from delete_found [of bk books s] assms(1,2) obtain i where i: "i < length books"
    "matches s (books ! i)"
    and del: "router_delete_id books s =
      (\<lparr>status = 204, body = NoBody\<rparr>, take i books @ drop (Suc i) books)"
    by blast
  let ?r = "take i books @ drop (Suc i) books"
  have "\<forall>x\<in>set ?r. \<not> matches s x"
  proof
    fix x assume "x \<in> set ?r"
    then consider "x \<in> set (take i books)" | "x \<in> set (drop (Suc i) books)" by auto
    then obtain j where j: "j < length books" "j \<noteq> i" "x = books ! j"
    proof cases
      case 1
      then obtain k where "k < length (take i books)" "take i books ! k = x"
        by (auto simp: in_set_conv_nth)
      with i(1) have "k < length books" "k \<noteq> i" "x = books ! k" by auto
      then show ?thesis by (rule that)
    next
      case 2
      then obtain k where k: "k < length (drop (Suc i) books)" "drop (Suc i) books ! k = x"
        by (auto simp: in_set_conv_nth)
      then have "Suc i + k < length books" "Suc i + k \<noteq> i" "x = books ! (Suc i + k)"
        by auto
      then show ?thesis by (rule that)
    qed
    with assms(3) i show "\<not> matches s x" by blast
  qed
  then have "router_get_id ?r s = (\<lparr>status = 404, body = Text ''Not Found''\<rparr>, ?r)"
    by (simp add: router_get_id_def not_found sendStatus_404)
  then show ?thesis by (simp add: del)
qed

theorem delete_then_get_404_witness:
  "book1 \<in> set [book1, bookX] \<and> matches ''1'' book1
   \<and> \<not> matches ''1'' bookX
   \<and> fst (router_delete_id [book1, bookX] ''1'') = \<lparr>status = 204, body = NoBody\<rparr>
   \<and> status (fst (router_get_id (snd (router_delete_id [book1, bookX] ''1'')) ''1'')) = 404"
proof -
  have nm: "\<not> matches ''1'' bookX"
    by (simp add: matches_def strict_eq_def bookX_def parseInt_1)
  have h: "book1 \<in> set [book1, bookX]" by simp
  have u: "\<forall>i<length [book1, bookX]. \<forall>j<length [book1, bookX].
         matches ''1'' ([book1, bookX] ! i) \<and> matches ''1'' ([book1, bookX] ! j) \<longrightarrow> i = j"
    using nm by (auto simp: less_Suc_eq nth_Cons')
  from h matches_book1 nm delete_then_get_404 [OF h matches_book1 u] show ?thesis by blast
qed

text \<open>
  C5 as stated fails when two books share the id. In the store that the scenario of the
  specification reaches, both books have id 2: \<open>DELETE /books/2\<close> answers 204 and removes
  the first, and the \<open>GET /books/2\<close> after it answers 200 with the second.
\<close>

theorem delete_then_get_counterexample:
  "store_dup = [bookX, bookZ] \<and> matches ''2'' bookX
   \<and> router_delete_id store_dup ''2'' = (\<lparr>status = 204, body = NoBody\<rparr>, [bookZ])
   \<and> fst (router_get_id (snd (router_delete_id store_dup ''2'')) ''2'')
       = \<lparr>status = 200, body = JsonBook bookZ\<rparr>"
proof -
  have d: "router_delete_id [bookX, bookZ] ''2'' = (\<lparr>status = 204, body = NoBody\<rparr>, [bookZ])"
    by (simp add: router_delete_id_def matches_bookX sendStatus_204 splice_def)
  have g: "router_get_id [bookZ] ''2'' = (\<lparr>status = 200, body = JsonBook bookZ\<rparr>, [bookZ])"
    by (simp add: router_get_id_def matches_bookZ json_def send_def)
  show ?thesis by (simp add: store_dup_eq matches_bookX d g)
qed

subsection \<open>POST, then GET\<close>

text \<open>
  C6, as the code has it. When no book of the store already has the id that the \<open>POST\<close>
  assigns, a \<open>GET /books/:id\<close> on that id right after the \<open>POST\<close> answers 200 with the body
  of the \<open>POST\<close> response: the created book, with the title and author of the request, the
  \<open>finished\<close> of C7, and the id and \<open>createdAt\<close> that the server assigned.
\<close>

theorem post_then_get:
  assumes "parseInt s = Finite (of_nat (length books) + 1)"
    and "\<forall>bk\<in>set books. book_id bk \<noteq> Finite (of_nat (length books) + 1)"
  shows "fst (router_get_id (snd (router_post books b now)) s)
           = \<lparr>status = 200, body = body (fst (router_post books b now))\<rparr>
         \<and> fst (router_post books b now)
           = \<lparr>status = 201, body = JsonBook (new_book books b now)\<rparr>
         \<and> title (new_book books b now) = property b ''title''
         \<and> author (new_book books b now) = property b ''author''
         \<and> createdAt (new_book books b now) = DateObj now"
proof -
  let ?nb = "new_book books b now"
  have post: "router_post books b now = (\<lparr>status = 201, body = JsonBook ?nb\<rparr>, books @ [?nb])"
    by (simp add: router_post_def json_def send_def Let_def)
  have "\<forall>bk\<in>set books. \<not> matches s bk"
    using assms by (simp add: matches_def strict_eq_def)
  moreover have "matches s ?nb" using assms(1) by (rule matches_new_book)
  ultimately have "find (matches s) (books @ [?nb]) = Some ?nb" by (rule find_snoc)
  then have "router_get_id (books @ [?nb]) s
      = (\<lparr>status = 200, body = JsonBook ?nb\<rparr>, books @ [?nb])"
    by (simp add: router_get_id_def json_def send_def)
  then show ?thesis by (simp add: post) (simp add: new_book_def)
qed

theorem post_then_get_witness:
  "parseInt ''2'' = Finite (of_nat (length [book1]) + 1)
   \<and> book_id book1 \<noteq> Finite (of_nat (length [book1]) + 1)
   \<and> fst (router_get_id (snd (router_post [book1] body_XY 10)) ''2'')
       = \<lparr>status = 200, body = body (fst (router_post [book1] body_XY 10))\<rparr>
   \<and> fst (router_post [book1] body_XY 10)
       = \<lparr>status = 201, body = JsonBook (new_book [book1] body_XY 10)\<rparr>"
proof -
  have h1: "parseInt ''2'' = Finite (of_nat (length [book1]) + 1)"
    by (simp add: parseInt_2)
  have n: "book_id book1 \<noteq> Finite (of_nat (length [book1]) + 1)"
    by (simp add: book1_def)
  then have h2: "\<forall>bk\<in>set [book1]. book_id bk \<noteq> Finite (of_nat (length [book1]) + 1)"
    by simp
  from h1 n post_then_get [OF h1 h2, of body_XY 10] show ?thesis by blast
qed

text \<open>
  C6 as stated fails when the assigned id is already taken. In the scenario of the
  specification, after the seed book is deleted the store holds X with id 2; the \<open>POST\<close> of
  Z answers with Z under id 2, and \<open>GET /books/2\<close> then answers with X.
\<close>

theorem post_then_get_counterexample:
  "store_after_delete = [bookX]
   \<and> fst (router_post store_after_delete body_ZW 20) = \<lparr>status = 201, body = JsonBook bookZ\<rparr>
   \<and> book_id bookZ = Finite 2 \<and> parseInt ''2'' = Finite 2
   \<and> fst (router_get_id (snd (router_post store_after_delete body_ZW 20)) ''2'')
       = \<lparr>status = 200, body = JsonBook bookX\<rparr>
   \<and> bookX \<noteq> bookZ"
proof -
  have p: "router_post [bookX] body_ZW 20
      = (\<lparr>status = 201, body = JsonBook bookZ\<rparr>, [bookX, bookZ])"
    by (simp add: router_post_def new_book_def Let_def body_ZW_def property_def bookZ_def
        json_def send_def)
  have g: "router_get_id [bookX, bookZ] ''2''
      = (\<lparr>status = 200, body = JsonBook bookX\<rparr>, [bookX, bookZ])"
    by (simp add: router_get_id_def matches_bookX json_def send_def)
  have ne: "bookX \<noteq> bookZ" by (simp add: bookX_def bookZ_def)
  have "book_id bookZ = Finite 2" by (simp add: bookZ_def)
  with ne show ?thesis by (simp add: store_after_delete_eq p g parseInt_2)
qed

subsection \<open>The default of finished\<close>

text \<open>
  C7. A \<open>POST /books\<close> whose body has no \<open>finished\<close> creates a book with \<open>finished\<close> false,
  in the store and in the 201 response; a body that supplies \<open>finished\<close> has the supplied
  value stored.
\<close>

theorem post_finished_default:
  "(b ''finished'' = None \<longrightarrow>
      finished (last (snd (router_post books b now))) = Boolean False
      \<and> fst (router_post books b now)
          = \<lparr>status = 201, body = JsonBook (last (snd (router_post books b now)))\<rparr>)
   \<and> (b' ''finished'' = Some v \<and> v \<noteq> Undefined \<longrightarrow>
      finished (last (snd (router_post books b' now))) = v
      \<and> fst (router_post books b' now)
          = \<lparr>status = 201, body = JsonBook (last (snd (router_post books b' now)))\<rparr>)"
  by (simp add: router_post_def json_def send_def new_book_def property_def Let_def)

theorem post_finished_default_witness:
  "[''title'' \<mapsto> Str ''X'', ''author'' \<mapsto> Str ''Y''] ''finished'' = None
   \<and> [''title'' \<mapsto> Str ''X'', ''finished'' \<mapsto> Boolean True] ''finished'' = Some (Boolean True)
   \<and> Boolean True \<noteq> Undefined
   \<and> finished (last (snd (router_post [book1]
        [''title'' \<mapsto> Str ''X'', ''author'' \<mapsto> Str ''Y''] 5))) = Boolean False
   \<and> finished (last (snd (router_post [book1]
        [''title'' \<mapsto> Str ''X'', ''finished'' \<mapsto> Boolean True] 5))) = Boolean True"
proof -
  have h: "[''title'' \<mapsto> Str ''X'', ''author'' \<mapsto> Str ''Y''] ''finished'' = None"
    "[''title'' \<mapsto> Str ''X'', ''finished'' \<mapsto> Boolean True] ''finished'' = Some (Boolean True)"
    "Boolean True \<noteq> Undefined"
    by simp_all
  from h post_finished_default [of "[''title'' \<mapsto> Str ''X'', ''author'' \<mapsto> Str ''Y'']"
      "[book1]" 5 "[''title'' \<mapsto> Str ''X'', ''finished'' \<mapsto> Boolean True]" "Boolean True"]
  show ?thesis by blast
qed

subsection \<open>Parsing the path parameter\<close>

text \<open>
  C8, as the code has it. A path parameter that is a nonempty run of decimal digits
  followed by a character that is not a decimal digit, other than a single \<open>0\<close> followed
  by \<open>x\<close> or \<open>X\<close>, parses to the number of the run, and \<open>GET\<close>, \<open>PUT\<close> and
  \<open>DELETE /books/:id\<close> answer and leave the store exactly as they do for the run alone. A
  path parameter whose first character is neither white space, a sign nor a decimal digit
  parses to NaN, and the three handlers answer 404 and leave the store as it was.
\<close>

theorem parseInt_prefix:
  "(ds \<noteq> [] \<and> (\<forall>d\<in>set ds. isRadixDigit 10 d) \<and> \<not> isRadixDigit 10 c
      \<and> \<not> (ds = ''0'' \<and> (c = CHR ''x'' \<or> c = CHR ''X'')) \<longrightarrow>
      parseInt (ds @ c # rest) = toNumber (int (mathInt 10 ds))
      \<and> parseInt ds = toNumber (int (mathInt 10 ds))
      \<and> router_get_id books (ds @ c # rest) = router_get_id books ds
      \<and> router_put_id books (ds @ c # rest) b = router_put_id books ds b
      \<and> router_delete_id books (ds @ c # rest) = router_delete_id books ds)
   \<and> (\<not> isWhiteSpace c' \<and> c' \<noteq> CHR ''+'' \<and> c' \<noteq> CHR ''-'' \<and> \<not> isRadixDigit 10 c' \<longrightarrow>
      parseInt (c' # rest') = NaN
      \<and> router_get_id books (c' # rest') = (\<lparr>status = 404, body = Text ''Not Found''\<rparr>, books)
      \<and> router_put_id books (c' # rest') b
          = (\<lparr>status = 404, body = Text ''Not Found''\<rparr>, books)
      \<and> router_delete_id books (c' # rest')
          = (\<lparr>status = 404, body = Text ''Not Found''\<rparr>, books))"
proof (intro conjI impI)
  assume h: "ds \<noteq> [] \<and> (\<forall>d\<in>set ds. isRadixDigit 10 d) \<and> \<not> isRadixDigit 10 c
      \<and> \<not> (ds = ''0'' \<and> (c = CHR ''x'' \<or> c = CHR ''X''))"
  then have p: "parseInt (ds @ c # rest) = toNumber (int (mathInt 10 ds))"
    by (intro parseInt_digits_prefix) simp_all
  from h have q: "parseInt ds = toNumber (int (mathInt 10 ds))"
    by (intro parseInt_digits) simp_all
  from p q have e: "parseInt (ds @ c # rest) = parseInt ds" by simp
  show "parseInt (ds @ c # rest) = toNumber (int (mathInt 10 ds))" by (rule p)
  show "parseInt ds = toNumber (int (mathInt 10 ds))" by (rule q)
  show "router_get_id books (ds @ c # rest) = router_get_id books ds"
    by (rule handlers_cong [OF e])
  show "router_put_id books (ds @ c # rest) b = router_put_id books ds b"
    by (rule handlers_cong [OF e])
  show "router_delete_id books (ds @ c # rest) = router_delete_id books ds"
    by (rule handlers_cong [OF e])
next
  assume h: "\<not> isWhiteSpace c' \<and> c' \<noteq> CHR ''+'' \<and> c' \<noteq> CHR ''-'' \<and> \<not> isRadixDigit 10 c'"
  then have n: "parseInt (c' # rest') = NaN"
    by (intro parseInt_NaN) simp_all
  then have f: "find (matches (c' # rest')) books = None"
    by (simp add: find_None_iff matches_NaN)
  show "parseInt (c' # rest') = NaN" by (rule n)
  show "router_get_id books (c' # rest') = (\<lparr>status = 404, body = Text ''Not Found''\<rparr>, books)"
    by (simp add: router_get_id_def f sendStatus_404)
  show "router_put_id books (c' # rest') b
      = (\<lparr>status = 404, body = Text ''Not Found''\<rparr>, books)"
    by (simp add: router_put_id_def f sendStatus_404)
  show "router_delete_id books (c' # rest')
      = (\<lparr>status = 404, body = Text ''Not Found''\<rparr>, books)"
    by (simp add: router_delete_id_def f sendStatus_404)
qed

theorem parseInt_prefix_witness:
  "''1'' \<noteq> [] \<and> isRadixDigit 10 (CHR ''1'') \<and> \<not> isRadixDigit 10 (CHR ''a'')
   \<and> \<not> (''1'' = ''0'' \<and> (CHR ''a'' = CHR ''x'' \<or> CHR ''a'' = CHR ''X''))
   \<and> \<not> isWhiteSpace (CHR ''a'') \<and> CHR ''a'' \<noteq> CHR ''+'' \<and> CHR ''a'' \<noteq> CHR ''-''
   \<and> parseInt ''1abc'' = Finite 1
   \<and> router_get_id [book1] ''1abc'' = (\<lparr>status = 200, body = JsonBook book1\<rparr>, [book1])
   \<and> parseInt ''abc'' = NaN
   \<and> router_get_id [book1] ''abc'' = (\<lparr>status = 404, body = Text ''Not Found''\<rparr>, [book1])"
proof -
  have h1: "''1'' \<noteq> [] \<and> (\<forall>d\<in>set ''1''. isRadixDigit 10 d) \<and> \<not> isRadixDigit 10 (CHR ''a'')
      \<and> \<not> (''1'' = ''0'' \<and> (CHR ''a'' = CHR ''x'' \<or> CHR ''a'' = CHR ''X''))"
    by (simp add: decimal_digit_iff)
  have h2: "\<not> isWhiteSpace (CHR ''a'') \<and> CHR ''a'' \<noteq> CHR ''+'' \<and> CHR ''a'' \<noteq> CHR ''-''
      \<and> \<not> isRadixDigit 10 (CHR ''a'')"
    by (simp add: decimal_digit_iff isWhiteSpace_def)
  have g: "router_get_id [book1] ''1'' = (\<lparr>status = 200, body = JsonBook book1\<rparr>, [book1])"
    by (simp add: router_get_id_def matches_book1 json_def send_def)
  have m: "toNumber (int (mathInt 10 ''1'')) = Finite 1"
    by (simp add: mathInt_def digitValue_def toNumber_def)
  from parseInt_prefix [of "''1''" "CHR ''a''" "''bc''" "[book1]" Map.empty "CHR ''a''" "''bc''"]
    h1 h2
  have "parseInt ''1abc'' = toNumber (int (mathInt 10 ''1''))"
    and "router_get_id [book1] ''1abc'' = router_get_id [book1] ''1''"
    and "parseInt ''abc'' = NaN"
    and "router_get_id [book1] ''abc'' = (\<lparr>status = 404, body = Text ''Not Found''\<rparr>, [book1])"
    by simp_all
  moreover have "isRadixDigit 10 (CHR ''1'')" by (simp add: decimal_digit_iff)
  ultimately show ?thesis using h1 h2 g m by simp
qed

text \<open>
  C8 as stated fails on both halves. \<open>0xA\<close> is the digit 0 followed by two characters that
  are not digits, and \<open>parseInt\<close> reads it in radix 16 as 10: on the ten-book store
  \<open>GET /books/0xA\<close> answers 200 with the book of id 10, where \<open>GET /books/0\<close> answers 404.
  \<open>+1\<close> does not start with a digit, and \<open>parseInt\<close> reads it as 1: \<open>GET /books/+1\<close>
  answers 200 with the seed book.
\<close>

theorem parseInt_prefix_counterexample:
  "isRadixDigit 10 (CHR ''0'') \<and> \<not> isRadixDigit 10 (CHR ''x'') \<and> \<not> isRadixDigit 10 (CHR ''A'')
   \<and> parseInt ''0xA'' = Finite 10 \<and> parseInt ''0'' = Finite 0
   \<and> fst (router_get_id store10 ''0xA'') = \<lparr>status = 200, body = JsonBook (posted 10)\<rparr>
   \<and> fst (router_get_id store10 ''0'') = \<lparr>status = 404, body = Text ''Not Found''\<rparr>
   \<and> \<not> isRadixDigit 10 (CHR ''+'') \<and> parseInt ''+1'' = Finite 1
   \<and> fst (router_get_id [book1] ''+1'') = \<lparr>status = 200, body = JsonBook book1\<rparr>"
proof -
  have d: "isRadixDigit 10 (CHR ''0'')" "\<not> isRadixDigit 10 (CHR ''x'')"
    "\<not> isRadixDigit 10 (CHR ''A'')" "\<not> isRadixDigit 10 (CHR ''+'')"
    by (simp_all add: decimal_digit_iff)
  have "matches ''+1'' book1"
    by (simp add: matches_def strict_eq_def parseInt_plus1 book1_def)
  then have "router_get_id [book1] ''+1'' = (\<lparr>status = 200, body = JsonBook book1\<rparr>, [book1])"
    by (simp add: router_get_id_def json_def send_def)
  with d show ?thesis
    by (simp add: parseInt_0xA parseInt_0 parseInt_plus1 get_store10_0xA get_store10_0)
qed

subsection \<open>DELETE removes the first match\<close>

text \<open>
  C9. When the store holds a book with the given id, \<open>DELETE /books/:id\<close> answers 204 and
  removes the book at the first matching position and no other: the collection is one
  shorter, the books before that position stay where they were and the books after it
  move down by one. A later book with the same id is therefore still in the store.
\<close>

theorem delete_removes_first_match:
  assumes "bk \<in> set books" and "matches s bk"
  shows "\<exists>i<length books. matches s (books ! i) \<and> (\<forall>j<i. \<not> matches s (books ! j))
           \<and> fst (router_delete_id books s) = \<lparr>status = 204, body = NoBody\<rparr>
           \<and> snd (router_delete_id books s) = take i books @ drop (Suc i) books
           \<and> length (snd (router_delete_id books s)) + 1 = length books
           \<and> (\<forall>j<i. snd (router_delete_id books s) ! j = books ! j)
           \<and> (\<forall>j. i < j \<and> j < length books \<longrightarrow>
                 snd (router_delete_id books s) ! (j - 1) = books ! j)
           \<and> (\<forall>j. i < j \<and> j < length books \<and> matches s (books ! j) \<longrightarrow>
                 books ! j \<in> set (snd (router_delete_id books s)))"
proof -
  from delete_found [of bk books s] assms obtain i where i: "i < length books"
    "matches s (books ! i)" "\<forall>j<i. \<not> matches s (books ! j)"
    and del: "router_delete_id books s =
      (\<lparr>status = 204, body = NoBody\<rparr>, take i books @ drop (Suc i) books)"
    by blast
  let ?r = "take i books @ drop (Suc i) books"
  have len: "length ?r + 1 = length books" using i(1) by simp
  have before: "\<forall>j<i. ?r ! j = books ! j" using i(1) by (simp add: nth_append)
  have after: "\<forall>j. i < j \<and> j < length books \<longrightarrow> ?r ! (j - 1) = books ! j"
  proof (intro allI impI)
    fix j assume j: "i < j \<and> j < length books"
    then have "\<not> j - 1 < i" by linarith
    then have "?r ! (j - 1) = drop (Suc i) books ! (j - 1 - i)"
      using i(1) by (simp add: nth_append)
    also have "\<dots> = books ! (Suc i + (j - 1 - i))" using j by simp
    also have "Suc i + (j - 1 - i) = j" using j by simp
    finally show "?r ! (j - 1) = books ! j" .
  qed
  have dup: "\<forall>j. i < j \<and> j < length books \<and> matches s (books ! j) \<longrightarrow> books ! j \<in> set ?r"
  proof (intro allI impI)
    fix j assume j: "i < j \<and> j < length books \<and> matches s (books ! j)"
    with after have "?r ! (j - 1) = books ! j" by blast
    moreover from j len have "j - 1 < length ?r" by linarith
    ultimately show "books ! j \<in> set ?r" by (metis nth_mem)
  qed
  show ?thesis
    using i len before after dup by (intro exI [of _ i]) (simp add: del)
qed

theorem delete_removes_first_match_witness:
  "book1 \<in> set [book1, book1\<lparr>title := Str ''Z''\<rparr>] \<and> matches ''1'' book1
   \<and> (\<exists>i<length [book1, book1\<lparr>title := Str ''Z''\<rparr>].
        matches ''1'' ([book1, book1\<lparr>title := Str ''Z''\<rparr>] ! i)
        \<and> (\<forall>j<i. \<not> matches ''1'' ([book1, book1\<lparr>title := Str ''Z''\<rparr>] ! j))
        \<and> fst (router_delete_id [book1, book1\<lparr>title := Str ''Z''\<rparr>] ''1'')
            = \<lparr>status = 204, body = NoBody\<rparr>
        \<and> length (snd (router_delete_id [book1, book1\<lparr>title := Str ''Z''\<rparr>] ''1'')) + 1
            = length [book1, book1\<lparr>title := Str ''Z''\<rparr>]
        \<and> (\<forall>j. i < j \<and> j < length [book1, book1\<lparr>title := Str ''Z''\<rparr>]
                 \<and> matches ''1'' ([book1, book1\<lparr>title := Str ''Z''\<rparr>] ! j) \<longrightarrow>
              [book1, book1\<lparr>title := Str ''Z''\<rparr>] ! j
                \<in> set (snd (router_delete_id [book1, book1\<lparr>title := Str ''Z''\<rparr>] ''1''))))"
proof -
  have m: "matches ''1'' book1"
    by (simp add: matches_def strict_eq_def book1_def parseInt_1)
  have h: "book1 \<in> set [book1, book1\<lparr>title := Str ''Z''\<rparr>]" by simp
  from m h delete_removes_first_match [OF h m] show ?thesis by blast
qed

subsection \<open>PUT keeps id and createdAt\<close>

text \<open>
  C10. \<open>PUT /books/:id\<close> reads \<open>title\<close>, \<open>author\<close> and \<open>finished\<close> from the body and nothing
  else: whatever the body holds, an \<open>id\<close> or a \<open>createdAt\<close> of its own included, the book
  at the matched position keeps the \<open>id\<close> and the \<open>createdAt\<close> of the matched book.
\<close>

theorem put_keeps_id_createdAt:
  assumes "bk \<in> set books" and "matches s bk"
  shows "\<exists>i<length books. matches s (books ! i) \<and> (\<forall>j<i. \<not> matches s (books ! j))
           \<and> fst (router_put_id books s b) = \<lparr>status = 204, body = NoBody\<rparr>
           \<and> book_id (snd (router_put_id books s b) ! i) = book_id (books ! i)
           \<and> createdAt (snd (router_put_id books s b) ! i) = createdAt (books ! i)"
proof -
  from put_found [of bk books s b] assms obtain i where i: "i < length books"
    "matches s (books ! i)" "\<forall>j<i. \<not> matches s (books ! j)"
    and put: "router_put_id books s b =
      (\<lparr>status = 204, body = NoBody\<rparr>, books[i := updated_book (books ! i) b])"
    by blast
  show ?thesis
    using i by (intro exI [of _ i]) (simp add: put updated_book_def)
qed

theorem put_keeps_id_createdAt_witness:
  "book1 \<in> set [book1] \<and> matches ''1'' book1
   \<and> (\<exists>i<length [book1]. matches ''1'' ([book1] ! i) \<and> (\<forall>j<i. \<not> matches ''1'' ([book1] ! j))
        \<and> fst (router_put_id [book1] ''1''
                 [''id'' \<mapsto> Number (Finite 99), ''createdAt'' \<mapsto> Str ''1999-01-01'',
                  ''title'' \<mapsto> Str ''T''])
            = \<lparr>status = 204, body = NoBody\<rparr>
        \<and> book_id (snd (router_put_id [book1] ''1''
                 [''id'' \<mapsto> Number (Finite 99), ''createdAt'' \<mapsto> Str ''1999-01-01'',
                  ''title'' \<mapsto> Str ''T'']) ! i) = book_id ([book1] ! i)
        \<and> createdAt (snd (router_put_id [book1] ''1''
                 [''id'' \<mapsto> Number (Finite 99), ''createdAt'' \<mapsto> Str ''1999-01-01'',
                  ''title'' \<mapsto> Str ''T'']) ! i) = createdAt ([book1] ! i))"
proof -
  have m: "matches ''1'' book1"
    by (simp add: matches_def strict_eq_def book1_def parseInt_1)
  have h: "book1 \<in> set [book1]" by simp
  from m h put_keeps_id_createdAt [OF h m] show ?thesis by blast
qed

end
